theory Spec2Isabelle
  imports Complex_Main
begin

section \<open>The retailer buying page\<close>

text \<open>
  A model of \<^verbatim>\<open>frontend/src/pages/RetailerbuyingPage.js\<close>: the React component
  \<^verbatim>\<open>RetailerBuyingPage\<close> with its five state cells, the functions \<^verbatim>\<open>load\<close> and
  \<^verbatim>\<open>confirmPurchase\<close>, the handlers of the rendered controls and the parts of the
  rendered tree that depend on the state.

  The component's state is a record that every handler takes and returns. What a
  handler does to the world (a toast, a request, a timer) is returned as a list of
  effects in program order. An asynchronous function is split at its \<^verbatim>\<open>await\<close>: the
  part before it, and the continuation, which takes what the awaited promise settled
  to. Calls of \<^verbatim>\<open>console.log\<close> are left out.
\<close>

subsection \<open>Values\<close>

text \<open>
  A JavaScript number is \<open>NaN\<close>, an infinity or a finite value. Every finite double
  is a rational, and comparison of doubles is exact.
\<close>

datatype number = NaN | NegInf | Fin rat | PosInf

text \<open>The relational operator \<^verbatim>\<open>a > b\<close> on two numbers: false when either is \<open>NaN\<close>.\<close>

fun js_gt :: "number \<Rightarrow> number \<Rightarrow> bool" where
  "js_gt (Fin a) (Fin b) = (b < a)"
| "js_gt PosInf (Fin b) = True"
| "js_gt PosInf NegInf = True"
| "js_gt (Fin a) NegInf = True"
| "js_gt _ _ = False"

subsection \<open>Double arithmetic\<close>

text \<open>
  Arithmetic on numbers is IEEE 754 binary64 arithmetic: the exact result, rounded to
  the nearest double, ties to the one with an even significand. The sign of a zero is
  not kept; nothing the page shows depends on it. \<open>pow2 e\<close> is \<open>2\<^sup>e\<close>.
\<close>

definition pow2 :: "int \<Rightarrow> rat" where
  "pow2 e = (if 0 \<le> e then 2 ^ nat e else 1 / 2 ^ nat (- e))"

function bit_length :: "int \<Rightarrow> int" where
  "bit_length a = (if a \<le> 0 then 0 else 1 + bit_length (a div 2))"
  by pat_completeness auto
termination
  by (relation "measure nat") auto

declare bit_length.simps [simp del]

text \<open>
  For \<open>x > 0\<close>, the \<open>e\<close> with \<open>2\<^sup>e \<le> x < 2\<^sup>e\<^sup>+\<^sup>1\<close>: from the bit length of the integer
  part of \<open>x\<close> when \<open>x \<ge> 1\<close>, and of the integer part of \<open>1 / x\<close> otherwise.
\<close>

definition binary_exponent :: "rat \<Rightarrow> int" where
  "binary_exponent x =
     (if 1 \<le> x then bit_length \<lfloor>x\<rfloor> - 1
      else (let k = bit_length \<lfloor>1 / x\<rfloor> - 1
            in if pow2 (- k) \<le> x then - k else - k - 1))"

definition round_half_even :: "rat \<Rightarrow> int" where
  "round_half_even x =
     (let n = \<lfloor>x\<rfloor>; d = x - of_int n
      in if d < 1 / 2 then n else if 1 / 2 < d then n + 1 else if even n then n else n + 1)"

text \<open>
  Rounding a positive rational to a double: 53 significant bits from the smallest
  normal exponent up, multiples of \<open>2\<^sup>-\<^sup>1\<^sup>0\<^sup>7\<^sup>4\<close> below it, and infinity when the rounded
  value reaches \<open>2\<^sup>1\<^sup>0\<^sup>2\<^sup>4\<close>.
\<close>

definition fl_pos :: "rat \<Rightarrow> number" where
  "fl_pos x =
     (let e = max (binary_exponent x) (- 1022);
          q = pow2 (e - 52);
          r = of_int (round_half_even (x / q)) * q
      in if pow2 1024 \<le> r then PosInf else Fin r)"

definition fl :: "rat \<Rightarrow> number" where
  "fl x =
     (if x = 0 then Fin 0
      else if 0 < x then fl_pos x
      else (case fl_pos (- x) of Fin r \<Rightarrow> Fin (- r) | PosInf \<Rightarrow> NegInf | y \<Rightarrow> y))"

text \<open>\<^verbatim>\<open>a + b\<close> on numbers: opposite infinities add to \<open>NaN\<close>.\<close>

definition num_add :: "number \<Rightarrow> number \<Rightarrow> number" where
  "num_add a b =
     (case a of
        NaN \<Rightarrow> NaN
      | PosInf \<Rightarrow> (case b of NaN \<Rightarrow> NaN | NegInf \<Rightarrow> NaN | _ \<Rightarrow> PosInf)
      | NegInf \<Rightarrow> (case b of NaN \<Rightarrow> NaN | PosInf \<Rightarrow> NaN | _ \<Rightarrow> NegInf)
      | Fin x \<Rightarrow> (case b of Fin y \<Rightarrow> fl (x + y) | _ \<Rightarrow> b))"

text \<open>\<^verbatim>\<open>a * b\<close> on numbers: an infinity times zero is \<open>NaN\<close>, otherwise the signs decide.\<close>

fun is_negative :: "number \<Rightarrow> bool" where
  "is_negative (Fin a) = (a < 0)"
| "is_negative NegInf = True"
| "is_negative _ = False"

definition infinite_product :: "number \<Rightarrow> number \<Rightarrow> number" where
  "infinite_product a b =
     (if a = NaN \<or> b = NaN \<or> a = Fin 0 \<or> b = Fin 0 then NaN
      else if is_negative a = is_negative b then PosInf else NegInf)"

definition num_mul :: "number \<Rightarrow> number \<Rightarrow> number" where
  "num_mul a b =
     (case a of
        Fin x \<Rightarrow> (case b of Fin y \<Rightarrow> fl (x * y) | _ \<Rightarrow> infinite_product a b)
      | _ \<Rightarrow> infinite_product a b)"

text \<open>\<^verbatim>\<open>a / c\<close> for a constant \<open>c\<close> that is a positive finite double (the page divides by 100).\<close>

definition num_div_pos :: "number \<Rightarrow> rat \<Rightarrow> number" where
  "num_div_pos a c = (case a of Fin x \<Rightarrow> fl (x / c) | _ \<Rightarrow> a)"

subsection \<open>Identifiers, parsed values and strings\<close>

text \<open>
  Strings are byte lists (UTF-8). Identifiers arrive as JSON scalars, a number or a
  string. On such values \<^verbatim>\<open>a !== b\<close> is inequality of the values, and values of
  different types differ.
\<close>

datatype ident = IdNum int | IdStr string

text \<open>
  A value produced by \<^verbatim>\<open>JSON.parse\<close>. A number is kept as its canonical text (what
  \<^verbatim>\<open>String(x)\<close> gives), which determines it up to the sign of zero; both zeros print
  as \<^verbatim>\<open>0\<close>. An object is the list of its members in the order parsed.
\<close>

datatype json =
    JNull
  | JBool bool
  | JNum string
  | JStr string
  | JArr "json list"
  | JObj "(string \<times> json) list"

text \<open>The outcome of \<^verbatim>\<open>JSON.parse(responseText)\<close>: a \<^verbatim>\<open>SyntaxError\<close> with its message, or a value.\<close>

datatype parse_result = ParseError string | Parsed json

text \<open>The outcome of reading a property: a \<^verbatim>\<open>TypeError\<close>, \<^verbatim>\<open>undefined\<close>, or a value.\<close>

datatype access = Throws | Undefined | Value json

text \<open>
  \<^verbatim>\<open>v.key\<close> for a parsed value \<open>v\<close> and a key that no prototype defines (the page reads
  \<^verbatim>\<open>detail\<close> and \<^verbatim>\<open>message\<close>): reading from \<^verbatim>\<open>null\<close> throws, only an object has
  members of its own, and of a repeated member the last one parsed counts.
\<close>

fun get_prop :: "json \<Rightarrow> string \<Rightarrow> access" where
  "get_prop JNull k = Throws"
| "get_prop (JObj kvs) k = (case map_of (rev kvs) k of None \<Rightarrow> Undefined | Some v \<Rightarrow> Value v)"
| "get_prop _ k = Undefined"

text \<open>Truthiness, as \<^verbatim>\<open>||\<close> tests it.\<close>

fun truthy :: "json \<Rightarrow> bool" where
  "truthy JNull = False"
| "truthy (JBool b) = b"
| "truthy (JNum s) = (s \<noteq> ''0'')"
| "truthy (JStr s) = (s \<noteq> [])"
| "truthy (JArr xs) = True"
| "truthy (JObj kvs) = True"

fun join_comma :: "string list \<Rightarrow> string" where
  "join_comma [] = []"
| "join_comma [s] = s"
| "join_comma (s # t # ss) = s @ '','' @ join_comma (t # ss)"

fun sequence_opt :: "'a option list \<Rightarrow> 'a list option" where
  "sequence_opt [] = Some []"
| "sequence_opt (None # xs) = None"
| "sequence_opt (Some x # xs) = (case sequence_opt xs of None \<Rightarrow> None | Some ys \<Rightarrow> Some (x # ys))"

text \<open>
  The string that \<^verbatim>\<open>+=\<close> appends for a parsed value, \<open>None\<close> when the conversion
  throws a \<^verbatim>\<open>TypeError\<close>. An array joins its elements with commas, \<^verbatim>\<open>null\<close> elements
  printing as nothing. A plain object prints as \<^verbatim>\<open>[object Object]\<close>, unless it has a
  member named \<^verbatim>\<open>toString\<close>: that member hides the inherited method and is not
  callable, and \<^verbatim>\<open>valueOf\<close> never yields a primitive, so the conversion throws.
\<close>

fun ToString :: "json \<Rightarrow> string option" where
  "ToString JNull = Some ''null''"
| "ToString (JBool b) = Some (if b then ''true'' else ''false'')"
| "ToString (JNum s) = Some s"
| "ToString (JStr s) = Some s"
| "ToString (JArr xs) =
     map_option join_comma
       (sequence_opt (map (\<lambda>x. case x of JNull \<Rightarrow> Some [] | _ \<Rightarrow> ToString x) xs))"
| "ToString (JObj kvs) =
     (if ''toString'' \<in> fst ` set kvs then None else Some ''[object Object]'')"

text \<open>\<^verbatim>\<open>s.includes(pat)\<close>: \<open>pat\<close> occurs in \<open>s\<close> as a contiguous run.\<close>

fun starts_with :: "string \<Rightarrow> string \<Rightarrow> bool" where
  "starts_with s [] = True"
| "starts_with [] (c # cs) = False"
| "starts_with (x # xs) (c # cs) = (x = c \<and> starts_with xs cs)"

fun includes_str :: "string \<Rightarrow> string \<Rightarrow> bool" where
  "includes_str [] pat = (pat = [])"
| "includes_str (x # xs) pat = (starts_with (x # xs) pat \<or> includes_str xs pat)"

text \<open>The decimal text of a status code, as the template literal prints it.\<close>

definition digit_char :: "nat \<Rightarrow> char" where
  "digit_char d = char_of (48 + d)"

fun show_nat :: "nat \<Rightarrow> string" where
  "show_nat n = (if n < 10 then [digit_char n] else show_nat (n div 10) @ [digit_char (n mod 10)])"

declare show_nat.simps [simp del]

subsection \<open>Data model\<close>

text \<open>
  Modelled from the spec: the product type belongs to the catalog service and is not
  declared in this repository. The fields are the ones the page reads; the
  specification gives \<^verbatim>\<open>price\<close> as a decimal, \<^verbatim>\<open>stock\<close> as an integer and
  \<^verbatim>\<open>image_url\<close> as optional.
\<close>

record product =
  id_product :: ident
  seller_id :: ident
  name :: string
  description :: string
  price :: number
  stock :: number
  image_url :: "string option"

text \<open>
  Modelled from the spec: the authentication context behind \<^verbatim>\<open>useAuth\<close> is not in this
  repository. The specification gives the session user as \<^verbatim>\<open>{ id, role }\<close>.
\<close>

record user =
  id_user :: ident
  role :: string

text \<open>The \<^verbatim>\<open>payload\<close> object of \<^verbatim>\<open>confirmPurchase\<close>.\<close>

record purchase_request =
  wholesaler_id :: ident
  product_id :: ident
  retailer_id :: ident
  quantity :: number
  markup_percent :: number

text \<open>The five \<^verbatim>\<open>useState\<close> cells.\<close>

record state =
  whProducts :: "product list"
  loading :: bool
  selected :: "product option"
  qty :: number
  markup :: number

definition initial_state :: state where
  "initial_state =
     \<lparr>whProducts = [], loading = True, selected = None, qty = Fin 1, markup = Fin 20\<rparr>"

datatype effect =
    ToastError string
  | ToastSuccess json
  | ToastSellerInfo ident
  | GetProducts
  | PostPurchase purchase_request
  | GetTest
  | NavigateAfter nat string

subsection \<open>Loading the products\<close>

text \<open>
  Modelled from the spec: \<^verbatim>\<open>productsAPI\<close> is not in this repository; the specification
  gives the answer of the catalog service as an array of products. The page allows
  for two shapes of what \<^verbatim>\<open>productsAPI.getAll\<close> resolves to: an envelope whose
  \<^verbatim>\<open>data\<close> member may be missing, or the array itself. \<^verbatim>\<open>res.data ?? res\<close> takes the envelope's data when
  there is one and the resolved value otherwise; an envelope without data has no
  \<^verbatim>\<open>filter\<close> method, so the call throws a \<^verbatim>\<open>TypeError\<close> (\<open>None\<close>).
\<close>

datatype api_result = Envelope "product list option" | Direct "product list"

datatype get_outcome = GetRejected | GetResolved api_result

fun all_of :: "api_result \<Rightarrow> product list option" where
  "all_of (Envelope (Some ps)) = Some ps"
| "all_of (Envelope None) = None"
| "all_of (Direct ps) = Some ps"

text \<open>\<^verbatim>\<open>load\<close> up to its \<^verbatim>\<open>await\<close>: \<^verbatim>\<open>setLoading(true)\<close> and the request.\<close>

definition load_begin :: "state \<Rightarrow> state \<times> effect list" where
  "load_begin st = (st\<lparr>loading := True\<rparr>, [GetProducts])"

text \<open>
  \<^verbatim>\<open>load\<close> from the \<^verbatim>\<open>await\<close> on. The \<^verbatim>\<open>catch\<close> block takes a rejected request and
  a \<^verbatim>\<open>TypeError\<close> alike; the \<^verbatim>\<open>finally\<close> block runs in every case.
\<close>

definition load_settle :: "user \<Rightarrow> state \<Rightarrow> get_outcome \<Rightarrow> state \<times> effect list" where
  "load_settle u st out =
     (case (case out of GetRejected \<Rightarrow> None | GetResolved res \<Rightarrow> all_of res) of
        None \<Rightarrow> (st\<lparr>loading := False\<rparr>, [ToastError ''Failed to load wholesaler products''])
      | Some all \<Rightarrow>
          (st\<lparr>whProducts := filter (\<lambda>p. seller_id p \<noteq> id_user u) all, loading := False\<rparr>, []))"

text \<open>A load fails when the request is rejected or resolves to a value without a list.\<close>

definition load_failed :: "get_outcome \<Rightarrow> bool" where
  "load_failed out = (case out of GetRejected \<Rightarrow> True | GetResolved res \<Rightarrow> all_of res = None)"

subsection \<open>Submitting a purchase\<close>

text \<open>
  \<^verbatim>\<open>confirmPurchase\<close> up to its \<^verbatim>\<open>await fetch(...)\<close>: the guard, the payload and the
  request. \<^verbatim>\<open>Number(qty)\<close> and \<^verbatim>\<open>Number(markup)\<close> return their arguments, which are
  numbers already. The state is not written.
\<close>

definition payload :: "user \<Rightarrow> state \<Rightarrow> product \<Rightarrow> purchase_request" where
  "payload u st p =
     \<lparr>wholesaler_id = seller_id p, product_id = id_product p, retailer_id = id_user u,
      quantity = qty st, markup_percent = markup st\<rparr>"

definition confirmPurchase_begin :: "user \<Rightarrow> state \<Rightarrow> effect list" where
  "confirmPurchase_begin u st =
     (case selected st of
        None \<Rightarrow> [ToastError ''Select a product'']
      | Some p \<Rightarrow> [PostPurchase (payload u st p)])"

text \<open>
  The response as the continuation reads it: \<^verbatim>\<open>resp.status\<close>, the text of the body,
  and what \<^verbatim>\<open>JSON.parse\<close> makes of that text. The request either rejects with an error
  that has a message (so does a failing \<^verbatim>\<open>resp.text()\<close>), or responds.
\<close>

record response =
  status :: nat
  responseText :: string
  parsed :: parse_result

datatype fetch_outcome = FetchRejected string | FetchResponded response

definition ok :: "response \<Rightarrow> bool" where
  "ok r = (200 \<le> status r \<and> status r \<le> 299)"

text \<open>
  What is appended after \<^verbatim>\<open>HTTP <status>: \<close>: \<^verbatim>\<open>errorData.detail || responseText\<close>, and
  \<^verbatim>\<open>responseText\<close> when anything in the inner \<^verbatim>\<open>try\<close> throws.
\<close>

definition error_detail :: "response \<Rightarrow> string" where
  "error_detail r =
     (case parsed r of
        ParseError m \<Rightarrow> responseText r
      | Parsed v \<Rightarrow>
          (case get_prop v ''detail'' of
             Throws \<Rightarrow> responseText r
           | Undefined \<Rightarrow> responseText r
           | Value d \<Rightarrow>
               if truthy d then (case ToString d of None \<Rightarrow> responseText r | Some s \<Rightarrow> s)
               else responseText r))"

definition errorMessage :: "response \<Rightarrow> string" where
  "errorMessage r = ''HTTP '' @ show_nat (status r) @ '': '' @ error_detail r"

definition method_not_allowed_text :: string where
  "method_not_allowed_text = ''Server rejected POST method - check CORS configuration''"

definition cors_text :: string where
  "cors_text = ''CORS blocked the request - check server CORS settings''"

definition network_error_text :: string where
  "network_error_text = ''Network error - check if server is running''"

text \<open>The fallback text ends in U+26A0, three bytes in UTF-8.\<close>

definition purchase_failed_text :: string where
  "purchase_failed_text = ''Purchase failed '' @ [CHR 0xE2, CHR 0x9A, CHR 0xA0]"

text \<open>The outer \<^verbatim>\<open>catch\<close> block, from \<^verbatim>\<open>err.message\<close> to the toast.\<close>

definition error_toast :: "string \<Rightarrow> effect" where
  "error_toast m =
     (if includes_str m ''405'' then ToastError method_not_allowed_text
      else if includes_str m ''CORS'' then ToastError cors_text
      else if includes_str m ''Network Error'' then ToastError network_error_text
      else ToastError (if m = [] then purchase_failed_text else m))"

text \<open>\<^verbatim>\<open>result.message || "Purchase successful!"\<close>, \<open>None\<close> when reading the member throws.\<close>

definition success_message :: "json \<Rightarrow> json option" where
  "success_message v =
     (case get_prop v ''message'' of
        Throws \<Rightarrow> None
      | Undefined \<Rightarrow> Some (JStr ''Purchase successful!'')
      | Value m \<Rightarrow> Some (if truthy m then m else JStr ''Purchase successful!''))"

text \<open>
  The success branch after the toast: the three resets, the call of \<^verbatim>\<open>load\<close> (which
  runs up to its \<^verbatim>\<open>await\<close>) and the timer that navigates after 1000 ms.
\<close>

definition purchase_succeeded :: "state \<Rightarrow> json \<Rightarrow> state \<times> effect list" where
  "purchase_succeeded st m =
     (let st1 = st\<lparr>selected := None, qty := Fin 1, markup := Fin 20\<rparr>;
          (st2, es) = load_begin st1
      in (st2, [ToastSuccess m] @ es @ [NavigateAfter 1000 ''/retailer/dashboard'']))"

text \<open>
  \<^verbatim>\<open>confirmPurchase\<close> from the \<^verbatim>\<open>await\<close> on. \<open>null_read\<close> is the message of the
  \<^verbatim>\<open>TypeError\<close> that reading a member of \<^verbatim>\<open>null\<close> throws; its wording is the
  engine's.
\<close>

definition confirmPurchase_settle ::
  "string \<Rightarrow> state \<Rightarrow> fetch_outcome \<Rightarrow> state \<times> effect list" where
  "confirmPurchase_settle null_read st out =
     (case out of
        FetchRejected m \<Rightarrow> (st, [error_toast m])
      | FetchResponded r \<Rightarrow>
          if \<not> ok r then (st, [error_toast (errorMessage r)])
          else (case parsed r of
                  ParseError m \<Rightarrow> (st, [error_toast m])
                | Parsed v \<Rightarrow>
                    (case success_message v of
                       None \<Rightarrow> (st, [error_toast null_read])
                     | Some m \<Rightarrow> purchase_succeeded st m)))"

text \<open>
  \<^verbatim>\<open>confirmPurchase\<close> run from its call to its end with nothing in between, given what
  the request settles to.
\<close>

definition confirmPurchase ::
  "string \<Rightarrow> user \<Rightarrow> state \<Rightarrow> fetch_outcome \<Rightarrow> state \<times> effect list" where
  "confirmPurchase null_read u st out =
     (case selected st of
        None \<Rightarrow> (st, confirmPurchase_begin u st)
      | Some p \<Rightarrow>
          (let (st1, es) = confirmPurchase_settle null_read st out
           in (st1, confirmPurchase_begin u st @ es)))"

subsection \<open>The retail price preview\<close>

text \<open>\<^verbatim>\<open>selected.price * (1 + markup / 100)\<close>, evaluated inside out.\<close>

definition retail_price :: "number \<Rightarrow> number \<Rightarrow> number" where
  "retail_price pr m = num_mul pr (num_add (Fin 1) (num_div_pos m 100))"

text \<open>
  What \<^verbatim>\<open>toFixed\<close> returns: a text, or for a value of magnitude \<open>10\<^sup>2\<^sup>1\<close> and more the
  exponent notation of that value (\<^verbatim>\<open>String(x)\<close>), which is kept as the value.
\<close>

datatype shown = Shown string | ExponentNotation rat

text \<open>
  The digits of \<open>n\<close>, padded with zeros to three, with the point before the last two.
\<close>

definition two_places :: "nat \<Rightarrow> string" where
  "two_places n =
     (let m = show_nat n;
          m' = (if length m \<le> 2 then replicate (3 - length m) (CHR ''0'') @ m else m);
          k = length m'
      in take (k - 2) m' @ ''.'' @ drop (k - 2) m')"

text \<open>
  \<^verbatim>\<open>x.toFixed(2)\<close>. For a finite \<open>x\<close> below \<open>10\<^sup>2\<^sup>1\<close> in magnitude: the sign, then the
  integer \<open>n\<close> for which \<open>n / 100\<close> is nearest to \<open>|x|\<close>, the larger one of two, printed
  by \<open>two_places\<close>.
\<close>

definition toFixed2 :: "number \<Rightarrow> shown" where
  "toFixed2 x =
     (case x of
        NaN \<Rightarrow> Shown ''NaN''
      | PosInf \<Rightarrow> Shown ''Infinity''
      | NegInf \<Rightarrow> Shown ''-Infinity''
      | Fin r \<Rightarrow>
          if 10 ^ 21 \<le> \<bar>r\<bar> then ExponentNotation r
          else Shown ((if r < 0 then ''-'' else []) @ two_places (nat \<lfloor>\<bar>r\<bar> * 100 + 1 / 2\<rfloor>)))"

text \<open>The text after the currency sign in the Retail Price Calculation box.\<close>

definition price_preview :: "state \<Rightarrow> product \<Rightarrow> shown" where
  "price_preview st p = toFixed2 (retail_price (price p) (markup st))"

text \<open>
  For comparison, the preview as the specification words it, in exact arithmetic:
  \<open>price \<times> (1 + markup / 100)\<close>, rounded to two decimal places, halves away from zero.
\<close>

definition exact_price_text :: "rat \<Rightarrow> rat \<Rightarrow> string" where
  "exact_price_text pr m =
     (let e = pr * (1 + m / 100)
      in (if e < 0 then ''-'' else []) @ two_places (nat \<lfloor>\<bar>e\<bar> * 100 + 1 / 2\<rfloor>))"

subsection \<open>The rendered page and its controls\<close>

text \<open>\<^verbatim>\<open>disabled={qty > selected.stock}\<close> on the Confirm Purchase button.\<close>

definition confirm_disabled :: "state \<Rightarrow> product \<Rightarrow> bool" where
  "confirm_disabled st p = js_gt (qty st) (stock p)"

text \<open>
  The parts of the rendered tree that depend on the state: the loading indicator or
  the page, the grid of cards, the notice for an empty list, and the modal with its
  two inputs and its Confirm Purchase button. The price line of the modal is
  \<open>price_preview\<close> above.
\<close>

record modal_view =
  buying :: product
  qty_value :: number
  markup_value :: number
  confirm_is_disabled :: bool
  confirm_label :: string
  stock_warning :: bool

record page_view =
  grid :: "product list"
  empty_notice :: bool
  modal :: "modal_view option"

datatype view = LoadingView | PageView page_view

definition modal_of :: "state \<Rightarrow> product \<Rightarrow> modal_view" where
  "modal_of st p =
     \<lparr>buying = p, qty_value = qty st, markup_value = markup st,
      confirm_is_disabled = confirm_disabled st p,
      confirm_label = (if js_gt (qty st) (stock p) then ''Insufficient Stock'' else ''Confirm Purchase''),
      stock_warning = js_gt (qty st) (stock p)\<rparr>"

definition render :: "state \<Rightarrow> view" where
  "render st =
     (if loading st then LoadingView
      else PageView
        \<lparr>grid = whProducts st,
         empty_notice = (whProducts st = [] \<and> \<not> loading st),
         modal = map_option (modal_of st) (selected st)\<rparr>)"

text \<open>
  What the user and the network can do to the page. A card is named by its position
  in the grid. A control exists only while it is rendered, and a click on a disabled
  button does nothing.
\<close>

datatype event =
    Mount
  | ProductsSettled get_outcome
  | ClickSelect nat
  | ClickInfo nat
  | ClickCancel
  | ChangeQty number
  | ChangeMarkup number
  | ClickConfirm
  | PurchaseSettled fetch_outcome
  | ClickTest
  | TestSettled bool

text \<open>The events that settle a products request.\<close>

fun is_ProductsSettled :: "event \<Rightarrow> bool" where
  "is_ProductsSettled (ProductsSettled out) = True"
| "is_ProductsSettled _ = False"

text \<open>
  Modelled from the spec: the \<^verbatim>\<open>Button\<close> component is not in this repository; the
  specification says that a disabled button blocks the action. So a click on Confirm
  Purchase, which exists while the modal is rendered, runs its handler
  \<^verbatim>\<open>confirmPurchase\<close> unless the button is disabled.
\<close>

definition click_confirm :: "user \<Rightarrow> state \<Rightarrow> effect list" where
  "click_confirm u st =
     (case render st of
        LoadingView \<Rightarrow> []
      | PageView pg \<Rightarrow>
          (case modal pg of
             None \<Rightarrow> []
           | Some m \<Rightarrow> if confirm_is_disabled m then [] else confirmPurchase_begin u st))"

text \<open>
  One event. The grid, the modal and the Test Connection button exist only while the
  page is rendered; the inputs and the Cancel button only while a product is selected.
  A settled request runs the continuation of the function that awaited it.
\<close>

definition step :: "string \<Rightarrow> user \<Rightarrow> state \<Rightarrow> event \<Rightarrow> state \<times> effect list" where
  "step null_read u st ev =
     (case ev of
        Mount \<Rightarrow> load_begin st
      | ProductsSettled out \<Rightarrow> load_settle u st out
      | ClickSelect i \<Rightarrow>
          if \<not> loading st \<and> i < length (whProducts st)
          then (st\<lparr>selected := Some (whProducts st ! i)\<rparr>, [])
          else (st, [])
      | ClickInfo i \<Rightarrow>
          if \<not> loading st \<and> i < length (whProducts st)
          then (st, [ToastSellerInfo (seller_id (whProducts st ! i))])
          else (st, [])
      | ClickCancel \<Rightarrow>
          if \<not> loading st \<and> selected st \<noteq> None then (st\<lparr>selected := None\<rparr>, []) else (st, [])
      | ChangeQty n \<Rightarrow>
          if \<not> loading st \<and> selected st \<noteq> None then (st\<lparr>qty := n\<rparr>, []) else (st, [])
      | ChangeMarkup n \<Rightarrow>
          if \<not> loading st \<and> selected st \<noteq> None then (st\<lparr>markup := n\<rparr>, []) else (st, [])
      | ClickConfirm \<Rightarrow> (st, click_confirm u st)
      | PurchaseSettled out \<Rightarrow> confirmPurchase_settle null_read st out
      | ClickTest \<Rightarrow> (st, if loading st then [] else [GetTest])
      | TestSettled good \<Rightarrow>
          (st, [if good then ToastSuccess (JStr ''Endpoint test successful!'')
                else ToastError ''Endpoint test failed - check server'']))"

text \<open>A run of events from a state: the final state and all effects in order.\<close>

fun run :: "string \<Rightarrow> user \<Rightarrow> state \<Rightarrow> event list \<Rightarrow> state \<times> effect list" where
  "run null_read u st [] = (st, [])"
| "run null_read u st (ev # evs) =
     (let (st1, es1) = step null_read u st ev;
          (st2, es2) = run null_read u st1 evs
      in (st2, es1 @ es2))"

text \<open>No stored product is listed by the session user.\<close>

definition no_own_listing :: "user \<Rightarrow> state \<Rightarrow> bool" where
  "no_own_listing u st = list_all (\<lambda>p. seller_id p \<noteq> id_user u) (whProducts st)"

text \<open>
  The number of products requests in flight after a run that starts with \<open>n\<close> of them
  in flight: every \<open>GetProducts\<close> effect starts one and every settled products request
  ends one. \<open>None\<close> when a request settles with none in flight, or when more than one
  is in flight at some point of the run.
\<close>

fun loads_in_flight :: "string \<Rightarrow> user \<Rightarrow> state \<Rightarrow> nat \<Rightarrow> event list \<Rightarrow> nat option" where
  "loads_in_flight null_read u st n [] = (if n \<le> 1 then Some n else None)"
| "loads_in_flight null_read u st n (ev # evs) =
     (if 1 < n \<or> (is_ProductsSettled ev \<and> n = 0) then None
      else loads_in_flight null_read u (fst (step null_read u st ev))
             (n - (if is_ProductsSettled ev then 1 else 0)
                + count_list (snd (step null_read u st ev)) GetProducts) evs)"

subsection \<open>Example data\<close>

text \<open>
  A retailer, some products (one listed by the retailer), states of the page,
  responses of the order service and runs of events. \<open>null_read_text\<close> is the message
  one engine gives when a member of \<^verbatim>\<open>null\<close> is read.
\<close>

definition retailer :: user where
  "retailer = \<lparr>id_user = IdNum 7, role = ''retailer''\<rparr>"

definition widget :: product where
  "widget = \<lparr>id_product = IdNum 101, seller_id = IdNum 3, name = ''Widget'',
     description = ''A widget'', price = Fin 100, stock = Fin 5, image_url = None\<rparr>"

definition gadget :: product where
  "gadget = \<lparr>id_product = IdStr ''g-2'', seller_id = IdNum 4, name = ''Gadget'',
     description = ''A gadget'', price = Fin (5 / 2), stock = Fin 40, image_url = Some ''g.png''\<rparr>"

definition own_listing :: product where
  "own_listing = \<lparr>id_product = IdNum 102, seller_id = IdNum 7, name = ''Mine'',
     description = ''Listed by the retailer'', price = Fin 9, stock = Fin 1, image_url = None\<rparr>"

definition half_price_widget :: product where
  "half_price_widget = widget\<lparr>price := Fin (1 / 2)\<rparr>"

definition catalog :: "product list" where
  "catalog = [widget, own_listing, gadget]"

definition null_read_text :: string where
  "null_read_text = ''result is null''"

definition browsing :: state where
  "browsing = \<lparr>whProducts = [widget, gadget], loading = False, selected = None,
     qty = Fin 1, markup = Fin 20\<rparr>"

definition buying_widget :: state where
  "buying_widget = \<lparr>whProducts = [widget, gadget], loading = False, selected = Some widget,
     qty = Fin 7, markup = Fin 35\<rparr>"

definition over_stock :: state where
  "over_stock = \<lparr>whProducts = [widget, gadget], loading = False, selected = Some widget,
     qty = Fin 6, markup = Fin 20\<rparr>"

definition within_stock :: state where
  "within_stock = \<lparr>whProducts = [widget, gadget], loading = False, selected = Some widget,
     qty = Fin 5, markup = Fin 20\<rparr>"

definition markup_fifteen :: state where
  "markup_fifteen = \<lparr>whProducts = [half_price_widget], loading = False,
     selected = Some half_price_widget, qty = Fin 1, markup = Fin 15\<rparr>"

definition first_load :: "event list" where
  "first_load = [Mount, ProductsSettled (GetResolved (Envelope (Some catalog)))]"

definition zero_quantity_order :: "event list" where
  "zero_quantity_order =
     [Mount, ProductsSettled (GetResolved (Envelope (Some catalog))), ClickSelect 0,
      ChangeQty (Fin 0), ChangeMarkup (Fin 250), ClickConfirm]"

definition dq :: string where
  "dq = [CHR 0x22]"

definition purchase_recorded :: response where
  "purchase_recorded =
     \<lparr>status = 200,
      responseText = ''{'' @ dq @ ''message'' @ dq @ '':'' @ dq @ ''Purchase recorded'' @ dq @ ''}'',
      parsed = Parsed (JObj [(''message'', JStr ''Purchase recorded'')])\<rparr>"

definition no_content :: response where
  "no_content =
     \<lparr>status = 204, responseText = [], parsed = ParseError ''Unexpected end of JSON input''\<rparr>"





definition purchase_steps :: "event list" where
  "purchase_steps =
     [ProductsSettled (GetResolved (Envelope (Some catalog))), ClickSelect 0,
      ClickConfirm, PurchaseSettled (FetchResponded purchase_recorded)]"

definition double_purchase :: "event list" where
  "double_purchase =
     [Mount, ProductsSettled (GetResolved (Envelope (Some catalog))), ClickSelect 0,
      ClickConfirm, ClickConfirm,
      PurchaseSettled (FetchResponded purchase_recorded),
      PurchaseSettled (FetchResponded purchase_recorded),
      ProductsSettled (GetResolved (Envelope (Some catalog)))]"

definition purchase_then_failed_reload :: "event list" where
  "purchase_then_failed_reload =
     [Mount, ProductsSettled (GetResolved (Envelope (Some catalog))), ClickSelect 0,
      ClickConfirm, PurchaseSettled (FetchResponded purchase_recorded),
      ProductsSettled GetRejected]"

section \<open>Properties\<close>

subsection \<open>Strings and digits\<close>


lemma show_nat_small: "n < 10 \<Longrightarrow> show_nat n = [digit_char n]"
  by (simp add: show_nat.simps)

lemma show_nat_step: "10 \<le> n \<Longrightarrow> show_nat n = show_nat (n div 10) @ [digit_char (n mod 10)]"
  by (subst show_nat.simps) simp

lemma show_nat_not_empty: "show_nat n \<noteq> []"
  by (subst show_nat.simps) simp

lemma show_nat_0: "show_nat 0 = ''0''" by code_simp

lemma show_nat_120: "show_nat 120 = ''120''" by code_simp

lemma digit_chars: "digit_char 0 = CHR ''0''" "digit_char 5 = CHR ''5''" "digit_char 7 = CHR ''7''" "digit_char 8 = CHR ''8''"
  by code_simp+

subsection \<open>The Confirm Purchase button\<close>

lemma click_confirm_cases:
  "click_confirm u st =
     (case selected st of
        None \<Rightarrow> []
      | Some p \<Rightarrow> if loading st \<or> js_gt (qty st) (stock p) then []
                  else [PostPurchase (payload u st p)])"
  by (simp add: click_confirm_def render_def modal_of_def confirm_disabled_def
      confirmPurchase_begin_def split: option.splits)

text \<open>
  Claim C1. Whenever the quantity is greater than the stock of the selected product,
  the Confirm Purchase button is disabled and a click on it sends nothing and changes
  nothing. Hence every request that a click does send carries the quantity of the
  state, which is not greater than the stock of the selected product; for finite
  values, it is at most the stock.
\<close>

theorem submit_blocked_over_stock:
  "(selected st = Some p \<and> js_gt (qty st) (stock p) \<longrightarrow>
      confirm_disabled st p \<and> step nr u st ClickConfirm = (st, []))
   \<and> (PostPurchase pl \<in> set (snd (step nr u st ClickConfirm)) \<longrightarrow>
      selected st \<noteq> None \<and> quantity pl = qty st
      \<and> \<not> js_gt (quantity pl) (stock (the (selected st)))
      \<and> (\<forall>q s. quantity pl = Fin q \<and> stock (the (selected st)) = Fin s \<longrightarrow> q \<le> s))"
  by (cases "selected st")
    (auto simp: step_def click_confirm_cases confirm_disabled_def payload_def
      split: if_splits)

theorem submit_blocked_over_stock_witness:
  "selected over_stock = Some widget \<and> js_gt (qty over_stock) (stock widget)
   \<and> confirm_disabled over_stock widget
   \<and> step null_read_text retailer over_stock ClickConfirm = (over_stock, [])
   \<and> PostPurchase (payload retailer within_stock widget)
        \<in> set (snd (step null_read_text retailer within_stock ClickConfirm))
   \<and> quantity (payload retailer within_stock widget) = Fin 5
   \<and> \<not> js_gt (Fin 5) (stock widget)"
proof -
  have a: "selected over_stock = Some widget \<and> js_gt (qty over_stock) (stock widget)"
    by (simp add: over_stock_def widget_def)
  have b: "PostPurchase (payload retailer within_stock widget)
        \<in> set (snd (step null_read_text retailer within_stock ClickConfirm))"
    by (simp add: step_def click_confirm_cases within_stock_def widget_def)
  have c: "quantity (payload retailer within_stock widget) = Fin 5"
    by (simp add: payload_def within_stock_def)
  from a submit_blocked_over_stock [of over_stock widget null_read_text retailer]
  have d: "confirm_disabled over_stock widget
      \<and> step null_read_text retailer over_stock ClickConfirm = (over_stock, [])"
    by blast
  from b submit_blocked_over_stock
    [of within_stock widget null_read_text retailer "payload retailer within_stock widget"]
  have e: "\<not> js_gt (quantity (payload retailer within_stock widget)) (stock (the (selected within_stock)))"
    by blast
  from e c have f: "\<not> js_gt (Fin 5) (stock widget)"
    by (simp add: within_stock_def)
  from a b c d f show ?thesis by simp
qed

subsection \<open>The retailer's own listings\<close>

lemma load_settle_stores:
  "all_of res = Some all \<Longrightarrow>
     load_settle u st (GetResolved res) =
       (st\<lparr>whProducts := filter (\<lambda>p. seller_id p \<noteq> id_user u) all, loading := False\<rparr>, [])"
  by (simp add: load_settle_def)

lemma confirmPurchase_settle_whProducts:
  "whProducts (fst (confirmPurchase_settle nr st out)) = whProducts st"
  by (simp add: confirmPurchase_settle_def purchase_succeeded_def load_begin_def
      split: fetch_outcome.splits parse_result.splits option.splits)

lemma step_no_own_listing:
  "no_own_listing u st \<Longrightarrow> no_own_listing u (fst (step nr u st ev))"
proof (cases ev)
  case (ProductsSettled out)
  assume inv: "no_own_listing u st"
  show ?thesis
  proof (cases "case out of GetRejected \<Rightarrow> None | GetResolved res \<Rightarrow> all_of res")
    case None
    with inv ProductsSettled show ?thesis
      by (simp add: step_def load_settle_def no_own_listing_def)
  next
    case (Some all)
    with ProductsSettled show ?thesis
      by (simp add: step_def load_settle_def no_own_listing_def list_all_iff)
  qed
next
  case (PurchaseSettled out)
  assume "no_own_listing u st"
  with PurchaseSettled show ?thesis
    by (simp add: step_def no_own_listing_def confirmPurchase_settle_whProducts)
qed (simp_all add: step_def no_own_listing_def load_begin_def)

lemma run_no_own_listing:
  "no_own_listing u st \<Longrightarrow> no_own_listing u (fst (run nr u st evs))"
proof (induction evs arbitrary: st)
  case Nil
  then show ?case by simp
next
  case (Cons ev evs)
  from Cons.prems have "no_own_listing u (fst (step nr u st ev))"
    by (rule step_no_own_listing)
  then have "no_own_listing u (fst (run nr u (fst (step nr u st ev)) evs))"
    by (rule Cons.IH)
  then show ?case by (simp add: split_beta Let_def)
qed

lemma render_grid:
  "render st = PageView pg \<Longrightarrow> grid pg = whProducts st"
  by (auto simp: render_def split: if_splits)

text \<open>
  Claim C2. When the catalog request resolves to a list, the stored list is that list
  filtered by \<^verbatim>\<open>seller_id !== user.id\<close>, so no product of the session user is in it.
  Further, whatever happens to the page from its initial state, the rendered grid
  never holds a product whose seller is the session user.
\<close>

theorem own_listings_excluded:
  "(all_of res = Some all \<longrightarrow>
      whProducts (fst (load_settle u st (GetResolved res)))
        = filter (\<lambda>p. seller_id p \<noteq> id_user u) all
      \<and> (\<forall>p \<in> set (whProducts (fst (load_settle u st (GetResolved res)))).
            seller_id p \<noteq> id_user u))
   \<and> (render (fst (run nr u initial_state evs)) = PageView pg \<longrightarrow>
        (\<forall>p \<in> set (grid pg). seller_id p \<noteq> id_user u))"
proof -
  have "no_own_listing u initial_state"
    by (simp add: no_own_listing_def initial_state_def)
  then have "no_own_listing u (fst (run nr u initial_state evs))"
    by (rule run_no_own_listing)
  then have "render (fst (run nr u initial_state evs)) = PageView pg \<longrightarrow>
        (\<forall>p \<in> set (grid pg). seller_id p \<noteq> id_user u)"
    by (auto simp: no_own_listing_def list_all_iff dest: render_grid)
  then show ?thesis
    by (simp add: load_settle_stores)
qed

theorem own_listings_excluded_witness:
  "all_of (Envelope (Some catalog)) = Some catalog
   \<and> whProducts (fst (load_settle retailer initial_state (GetResolved (Envelope (Some catalog)))))
       = [widget, gadget]
   \<and> render (fst (run null_read_text retailer initial_state first_load))
       = PageView \<lparr>grid = [widget, gadget], empty_notice = False, modal = None\<rparr>
   \<and> seller_id widget \<noteq> id_user retailer \<and> seller_id gadget \<noteq> id_user retailer
   \<and> seller_id own_listing = id_user retailer"
proof -
  have a: "all_of (Envelope (Some catalog)) = Some catalog" by simp
  have r: "render (fst (run null_read_text retailer initial_state first_load))
       = PageView \<lparr>grid = [widget, gadget], empty_notice = False, modal = None\<rparr>"
    by code_simp
  note t = own_listings_excluded [of "Envelope (Some catalog)" catalog retailer initial_state
      null_read_text first_load "\<lparr>grid = [widget, gadget], empty_notice = False, modal = None\<rparr>"]
  from t [THEN conjunct1, THEN mp, OF a, THEN conjunct1]
  have s: "whProducts (fst (load_settle retailer initial_state (GetResolved (Envelope (Some catalog)))))
        = filter (\<lambda>p. seller_id p \<noteq> id_user retailer) catalog" .
  from t [THEN conjunct2, THEN mp, OF r]
  have g: "\<forall>p \<in> set [widget, gadget]. seller_id p \<noteq> id_user retailer"
    by simp
  have "filter (\<lambda>p. seller_id p \<noteq> id_user retailer) catalog = [widget, gadget]"
    by code_simp
  with s have s': "whProducts (fst (load_settle retailer initial_state (GetResolved (Envelope (Some catalog)))))
       = [widget, gadget]"
    by simp
  have o: "seller_id own_listing = id_user retailer"
    by (simp add: own_listing_def retailer_def)
  from a s' r g o show ?thesis by simp
qed

subsection \<open>Rounding to the nearest double\<close>

lemma pow2_powi: "pow2 e = 2 powi e"
  by (simp add: pow2_def power_int_def inverse_eq_divide power_one_over)

lemma pow2_pos: "0 < pow2 e"
  by (simp add: pow2_powi)

lemma pow2_add: "pow2 (a + b) = pow2 a * pow2 b"
  by (simp add: pow2_powi power_int_add)

lemma pow2_mono: "a \<le> b \<Longrightarrow> pow2 a \<le> pow2 b"
  by (simp add: pow2_powi power_int_increasing)

lemma bit_length_bounds:
  "0 < a \<Longrightarrow> 1 \<le> bit_length a \<and> 2 ^ nat (bit_length a - 1) \<le> a \<and> a < 2 ^ nat (bit_length a)"
proof (induction a rule: bit_length.induct)
  case (1 a)
  show ?case
  proof (cases "a = 1")
    case True
    have "bit_length 1 = 1" by (simp add: bit_length.simps)
    with True show ?thesis by simp
  next
    case False
    with "1.prems" have h: "0 < a div 2" by simp
    from "1.prems" have na: "\<not> a \<le> 0" by simp
    from "1.IH" [OF na h]
    have ih: "1 \<le> bit_length (a div 2)"
      "2 ^ nat (bit_length (a div 2) - 1) \<le> a div 2"
      "a div 2 < 2 ^ nat (bit_length (a div 2))" by simp_all
    from na have bl: "bit_length a = 1 + bit_length (a div 2)"
      by (subst bit_length.simps) simp
    from ih(1) have n1: "nat (bit_length a - 1) = Suc (nat (bit_length (a div 2) - 1))"
      unfolding bl by simp
    from ih(1) have n2: "nat (bit_length a) = Suc (nat (bit_length (a div 2)))"
      unfolding bl by simp
    have "2 * 2 ^ nat (bit_length (a div 2) - 1) \<le> 2 * (a div 2)" using ih(2) by simp
    also have "\<dots> \<le> a" by simp
    finally have lo: "2 ^ nat (bit_length a - 1) \<le> a" unfolding n1 by simp
    have "a div 2 + 1 \<le> 2 ^ nat (bit_length (a div 2))" using ih(3) by simp
    then have "2 * (a div 2) + 2 \<le> 2 * 2 ^ nat (bit_length (a div 2))" by simp
    moreover have "a < 2 * (a div 2) + 2" by presburger
    ultimately have hi: "a < 2 ^ nat (bit_length a)" unfolding n2 by simp
    from ih(1) bl lo hi show ?thesis by simp
  qed
qed

lemma floor_exponent:
  fixes y :: rat
  assumes "1 \<le> y"
  shows "0 \<le> bit_length \<lfloor>y\<rfloor> - 1
       \<and> pow2 (bit_length \<lfloor>y\<rfloor> - 1) \<le> y \<and> y < pow2 (bit_length \<lfloor>y\<rfloor>)"
proof -
  let ?a = "\<lfloor>y\<rfloor>"
  from assms have a: "0 < ?a" by simp
  note b = bit_length_bounds [OF a]
  from b have k: "0 \<le> bit_length ?a - 1" by simp
  from b have "(of_int (2 ^ nat (bit_length ?a - 1)) :: rat) \<le> of_int ?a"
    by (simp only: of_int_le_iff)
  also have "\<dots> \<le> y" by simp
  finally have lo: "pow2 (bit_length ?a - 1) \<le> y" using k by (simp add: pow2_def)
  from b have "?a + 1 \<le> 2 ^ nat (bit_length ?a)" by simp
  then have "(of_int (?a + 1) :: rat) \<le> of_int (2 ^ nat (bit_length ?a))"
    by (simp only: of_int_le_iff)
  moreover have "y < of_int (?a + 1)" by linarith
  ultimately have hi: "y < pow2 (bit_length ?a)" using b by (simp add: pow2_def)
  from k lo hi show ?thesis by simp
qed

lemma binary_exponent_bounds:
  assumes "0 < x"
  shows "pow2 (binary_exponent x) \<le> x \<and> x < pow2 (binary_exponent x + 1)"
proof (cases "1 \<le> x")
  case True
  from floor_exponent [OF True] True show ?thesis
    by (simp add: binary_exponent_def)
next
  case False
  with assms have y: "1 \<le> 1 / x" by simp
  let ?k = "bit_length \<lfloor>1 / x\<rfloor> - 1"
  from floor_exponent [OF y]
  have k: "0 \<le> ?k" and lo: "pow2 ?k \<le> 1 / x" and hi: "1 / x < pow2 (?k + 1)" by simp_all
  have inv: "pow2 (- e) = 1 / pow2 e" for e
    by (simp add: pow2_powi power_int_minus inverse_eq_divide)
  from lo assms have up: "x \<le> pow2 (- ?k)"
    unfolding inv using pow2_pos [of ?k] by (simp add: field_simps)
  have P: "0 < pow2 (?k + 1)" by (rule pow2_pos)
  from hi assms have "1 < x * pow2 (?k + 1)" by (simp add: field_simps)
  with P have "1 / pow2 (?k + 1) < x" by (simp only: pos_divide_less_eq)
  moreover have "pow2 (- ?k - 1) = 1 / pow2 (?k + 1)"
    using inv [of "?k + 1"] by (simp add: algebra_simps)
  ultimately have dn: "pow2 (- ?k - 1) < x" by simp
  show ?thesis
  proof (cases "pow2 (- ?k) \<le> x")
    case t: True
    with up have "x = pow2 (- ?k)" by simp
    moreover have "pow2 (- ?k) < pow2 (- ?k + 1)"
      using pow2_add [of "- ?k" 1] pow2_pos [of "- ?k"] by (simp add: pow2_def)
    ultimately show ?thesis using False t by (simp add: binary_exponent_def Let_def)
  next
    case f: False
    with up have "x < pow2 (- ?k - 1 + 1)" by simp
    with dn False f show ?thesis by (simp add: binary_exponent_def Let_def)
  qed
qed

lemma round_half_even_close: "\<bar>of_int (round_half_even y) - y\<bar> \<le> 1 / 2"
proof -
  have "of_int \<lfloor>y\<rfloor> \<le> y" and "y < of_int \<lfloor>y\<rfloor> + 1" by linarith+
  then show ?thesis
    by (auto simp: round_half_even_def Let_def abs_le_iff)
qed

text \<open>Half a unit in the last place.\<close>

lemma fl_pos_close:
  assumes "0 < x" and "fl_pos x = Fin r"
  shows "\<bar>r - x\<bar> \<le> pow2 (max (binary_exponent x) (- 1022) - 53)"
proof -
  let ?e = "max (binary_exponent x) (- 1022)"
  let ?q = "pow2 (?e - 52)"
  let ?n = "round_half_even (x / ?q)"
  from assms(2) have r: "r = of_int ?n * ?q"
    by (simp add: fl_pos_def Let_def split: if_splits)
  have q: "0 < ?q" by (rule pow2_pos)
  have "\<bar>of_int ?n - x / ?q\<bar> \<le> 1 / 2" by (rule round_half_even_close)
  then have "\<bar>of_int ?n - x / ?q\<bar> * ?q \<le> 1 / 2 * ?q"
    using q by (simp only: mult_le_cancel_right_pos)
  moreover have "\<bar>of_int ?n - x / ?q\<bar> * ?q = \<bar>r - x\<bar>"
  proof -
    have "\<bar>of_int ?n - x / ?q\<bar> * ?q = \<bar>(of_int ?n - x / ?q) * ?q\<bar>"
      using q by (simp add: abs_mult)
    also have "(of_int ?n - x / ?q) * ?q = r - x"
      using q by (simp add: r field_simps)
    finally show ?thesis .
  qed
  moreover have "1 / 2 * ?q = pow2 (?e - 53)"
    using pow2_add [of "?e - 53" 1] by (simp add: pow2_def)
  ultimately show ?thesis by simp
qed

text \<open>In the normal range the relative error is at most \<open>2\<^sup>-\<^sup>5\<^sup>3\<close>.\<close>

lemma fl_pos_relative:
  assumes "pow2 (- 1022) \<le> x" and "fl_pos x = Fin r"
  shows "\<bar>r - x\<bar> \<le> x * pow2 (- 53)"
proof -
  from assms(1) pow2_pos [of "- 1022"] have x: "0 < x" by linarith
  note b = binary_exponent_bounds [OF x]
  have "- 1022 \<le> binary_exponent x"
  proof (rule ccontr)
    assume "\<not> - 1022 \<le> binary_exponent x"
    then have "binary_exponent x + 1 \<le> - 1022" by simp
    then have "pow2 (binary_exponent x + 1) \<le> pow2 (- 1022)" by (rule pow2_mono)
    with b assms(1) show False by linarith
  qed
  then have m: "max (binary_exponent x) (- 1022) = binary_exponent x" by simp
  from fl_pos_close [OF x assms(2)] have "\<bar>r - x\<bar> \<le> pow2 (binary_exponent x - 53)"
    unfolding m .
  also have "\<dots> = pow2 (binary_exponent x) * pow2 (- 53)"
    using pow2_add [of "binary_exponent x" "- 53"] by simp
  also have "\<dots> \<le> x * pow2 (- 53)"
    using b pow2_pos [of "- 53"] by (simp only: mult_le_cancel_right_pos)
  finally show ?thesis .
qed

text \<open>The standard model of rounding: a relative error of \<open>2\<^sup>-\<^sup>5\<^sup>3\<close> or an absolute one of \<open>2\<^sup>-\<^sup>1\<^sup>0\<^sup>7\<^sup>5\<close>.\<close>

lemma fl_pos_error:
  assumes "0 < x" and "fl_pos x = Fin r"
  shows "\<bar>r - x\<bar> \<le> x * pow2 (- 53) + pow2 (- 1075)"
proof (cases "pow2 (- 1022) \<le> x")
  case True
  from fl_pos_relative [OF True assms(2)] pow2_pos [of "- 1075"] show ?thesis by linarith
next
  case False
  note b = binary_exponent_bounds [OF assms(1)]
  have "binary_exponent x \<le> - 1022"
  proof (rule ccontr)
    assume "\<not> binary_exponent x \<le> - 1022"
    then have "- 1022 \<le> binary_exponent x" by simp
    then have "pow2 (- 1022) \<le> pow2 (binary_exponent x)" by (rule pow2_mono)
    with b False show False by linarith
  qed
  then have m: "max (binary_exponent x) (- 1022) = - 1022" by simp
  from fl_pos_close [OF assms] have "\<bar>r - x\<bar> \<le> pow2 (- 1075)" unfolding m by simp
  moreover have "0 \<le> x * pow2 (- 53)" using assms(1) pow2_pos [of "- 53"] by simp
  ultimately show ?thesis by linarith
qed

lemma fl_error:
  assumes "fl x = Fin r"
  shows "\<bar>r - x\<bar> \<le> \<bar>x\<bar> * pow2 (- 53) + pow2 (- 1075)"
proof -
  consider "x = 0" | "0 < x" | "x < 0" by linarith
  then show ?thesis
  proof cases
    case 1
    with assms have "r = 0" by (simp add: fl_def)
    with 1 pow2_pos [of "- 1075"] show ?thesis by simp
  next
    case 2
    with assms have "fl_pos x = Fin r" by (simp add: fl_def)
    from fl_pos_error [OF 2 this] 2 show ?thesis by simp
  next
    case 3
    then have p: "0 < - x" by simp
    from 3 assms obtain s where s: "fl_pos (- x) = Fin s" and r: "r = - s"
      by (auto simp: fl_def split: number.splits)
    from fl_pos_error [OF p s] have "\<bar>s - (- x)\<bar> \<le> (- x) * pow2 (- 53) + pow2 (- 1075)" .
    moreover have "\<bar>r - x\<bar> = \<bar>s - (- x)\<bar>" unfolding r by (simp add: abs_minus_commute)
    moreover from 3 have "\<bar>x\<bar> = - x" by simp
    ultimately show ?thesis by simp
  qed
qed

text \<open>No overflow below \<open>2\<^sup>1\<^sup>0\<^sup>0\<^sup>0\<close>.\<close>

lemma fl_pos_finite:
  assumes "0 < x" and "x \<le> pow2 1000"
  shows "\<exists>r. fl_pos x = Fin r"
proof -
  let ?e = "max (binary_exponent x) (- 1022)"
  let ?q = "pow2 (?e - 52)"
  let ?n = "round_half_even (x / ?q)"
  note b = binary_exponent_bounds [OF assms(1)]
  have "binary_exponent x \<le> 1000"
  proof (rule ccontr)
    assume "\<not> binary_exponent x \<le> 1000"
    then have "1001 \<le> binary_exponent x" by simp
    then have "pow2 1001 \<le> pow2 (binary_exponent x)" by (rule pow2_mono)
    moreover have "pow2 1000 < pow2 1001" by (simp add: pow2_def)
    ultimately show False using b assms(2) by linarith
  qed
  then have e: "?e \<le> 1000" by simp
  have q: "0 < ?q" by (rule pow2_pos)
  have "\<bar>of_int ?n - x / ?q\<bar> \<le> 1 / 2" by (rule round_half_even_close)
  then have "of_int ?n \<le> x / ?q + 1 / 2" by linarith
  then have "of_int ?n * ?q \<le> (x / ?q + 1 / 2) * ?q"
    using q by (simp only: mult_le_cancel_right_pos)
  also have "\<dots> = x + ?q / 2" using q by (simp add: field_simps)
  also have "\<dots> \<le> pow2 1000 + pow2 1000"
  proof -
    from e have "?e - 52 \<le> 1000" by simp
    then have "?q \<le> pow2 1000" by (rule pow2_mono)
    with q assms(2) show ?thesis by linarith
  qed
  also have "\<dots> < pow2 1024" by (simp add: pow2_def)
  finally have "\<not> pow2 1024 \<le> of_int ?n * ?q" by simp
  then show ?thesis by (simp add: fl_pos_def Let_def)
qed

lemma fl_finite:
  assumes "\<bar>x\<bar> \<le> pow2 1000"
  shows "\<exists>r. fl x = Fin r"
proof -
  consider "x = 0" | "0 < x" | "x < 0" by linarith
  then show ?thesis
  proof cases
    case 1
    then show ?thesis by (simp add: fl_def)
  next
    case 2
    with assms have "x \<le> pow2 1000" by simp
    from fl_pos_finite [OF 2 this] 2 show ?thesis by (simp add: fl_def)
  next
    case 3
    with assms have "0 < - x" "- x \<le> pow2 1000" by simp_all
    from fl_pos_finite [OF this] 3 show ?thesis by (auto simp: fl_def)
  qed
qed

lemma small_bounds:
  "(100 :: rat) \<le> pow2 1000" "(102 :: rat) \<le> pow2 1000" "(103 * 10 ^ 9 :: rat) \<le> pow2 1000"
  "(100 :: rat) * pow2 (- 53) + pow2 (- 1075) \<le> 1"
  "(102 :: rat) * pow2 (- 53) + pow2 (- 1075) \<le> 1"
  "(305 * 10 ^ 9 :: rat) * pow2 (- 53) + (2 * 10 ^ 9 + 1) * pow2 (- 1075) \<le> 1 / 10000"
  by (simp_all add: pow2_def)

text \<open>
  For prices up to \<open>10\<^sup>9\<close> and markups up to \<open>10\<^sup>4\<close> in magnitude the double product is
  finite and within \<open>1 / 10000\<close> of the exact product.
\<close>

lemma retail_price_near_exact:
  assumes a: "\<bar>a\<bar> \<le> 10 ^ 9" and b: "\<bar>b\<bar> \<le> 10 ^ 4"
  shows "\<exists>x. retail_price (Fin a) (Fin b) = Fin x \<and> \<bar>x - a * (1 + b / 100)\<bar> \<le> 1 / 10000"
proof -
  let ?u = "pow2 (- 53)" and ?h = "pow2 (- 1075)"
  have u: "0 < ?u" and h: "0 < ?h" by (rule pow2_pos)+
  from b have b100: "\<bar>b / 100\<bar> \<le> 100" by simp
  with small_bounds(1) have "\<bar>b / 100\<bar> \<le> pow2 1000" by linarith
  from fl_finite [OF this] obtain c where c: "fl (b / 100) = Fin c" by blast
  from fl_error [OF c] have "\<bar>c - b / 100\<bar> \<le> \<bar>b / 100\<bar> * ?u + ?h" .
  also have "\<dots> \<le> 100 * ?u + ?h"
    using b100 u by (simp add: mult_right_mono)
  finally have ec: "\<bar>c - b / 100\<bar> \<le> 100 * ?u + ?h" .
  with small_bounds(4) b100 have c101: "\<bar>c\<bar> \<le> 101" by linarith
  then have s102: "\<bar>1 + c\<bar> \<le> 102" by linarith
  with small_bounds(2) have "\<bar>1 + c\<bar> \<le> pow2 1000" by linarith
  from fl_finite [OF this] obtain d where d: "fl (1 + c) = Fin d" by blast
  from fl_error [OF d] have "\<bar>d - (1 + c)\<bar> \<le> \<bar>1 + c\<bar> * ?u + ?h" .
  also have "\<dots> \<le> 102 * ?u + ?h"
    using s102 u by (simp add: mult_right_mono)
  finally have ed: "\<bar>d - (1 + c)\<bar> \<le> 102 * ?u + ?h" .
  with small_bounds(5) s102 have d103: "\<bar>d\<bar> \<le> 103" by linarith
  have ad: "\<bar>a * d\<bar> \<le> 103 * 10 ^ 9"
  proof -
    have "\<bar>a * d\<bar> = \<bar>a\<bar> * \<bar>d\<bar>" by (rule abs_mult)
    also have "\<dots> \<le> 10 ^ 9 * 103"
      using a d103 by (rule mult_mono) simp_all
    finally show ?thesis by simp
  qed
  with small_bounds(3) have "\<bar>a * d\<bar> \<le> pow2 1000" by linarith
  from fl_finite [OF this] obtain x where x: "fl (a * d) = Fin x" by blast
  from fl_error [OF x] have "\<bar>x - a * d\<bar> \<le> \<bar>a * d\<bar> * ?u + ?h" .
  also have "\<dots> \<le> 103 * 10 ^ 9 * ?u + ?h"
    using ad u by (simp add: mult_right_mono)
  finally have ex: "\<bar>x - a * d\<bar> \<le> 103 * 10 ^ 9 * ?u + ?h" .
  have t2: "\<bar>a * (d - (1 + c))\<bar> \<le> 10 ^ 9 * (102 * ?u + ?h)"
  proof -
    have "\<bar>a * (d - (1 + c))\<bar> = \<bar>a\<bar> * \<bar>d - (1 + c)\<bar>" by (rule abs_mult)
    also have "\<dots> \<le> 10 ^ 9 * (102 * ?u + ?h)"
      using a ed by (rule mult_mono) simp_all
    finally show ?thesis .
  qed
  have t3: "\<bar>a * (c - b / 100)\<bar> \<le> 10 ^ 9 * (100 * ?u + ?h)"
  proof -
    have "\<bar>a * (c - b / 100)\<bar> = \<bar>a\<bar> * \<bar>c - b / 100\<bar>" by (rule abs_mult)
    also have "\<dots> \<le> 10 ^ 9 * (100 * ?u + ?h)"
      using a ec by (rule mult_mono) simp_all
    finally show ?thesis .
  qed
  have split: "x - a * (1 + b / 100) = (x - a * d) + a * (d - (1 + c)) + a * (c - b / 100)"
    by (simp add: algebra_simps)
  have "\<bar>x - a * (1 + b / 100)\<bar> \<le> \<bar>x - a * d\<bar> + \<bar>a * (d - (1 + c))\<bar> + \<bar>a * (c - b / 100)\<bar>"
    unfolding split by linarith
  also have "\<dots> \<le> (103 * 10 ^ 9 * ?u + ?h) + 10 ^ 9 * (102 * ?u + ?h) + 10 ^ 9 * (100 * ?u + ?h)"
    using ex t2 t3 by linarith
  also have "\<dots> = 305 * 10 ^ 9 * ?u + (2 * 10 ^ 9 + 1) * ?h"
    by (simp add: algebra_simps)
  also have "\<dots> \<le> 1 / 10000" by (rule small_bounds(6))
  finally have close: "\<bar>x - a * (1 + b / 100)\<bar> \<le> 1 / 10000" .
  have "retail_price (Fin a) (Fin b) = Fin x"
    by (simp add: retail_price_def num_div_pos_def num_add_def num_mul_def c d x)
  with close show ?thesis by blast
qed

subsection \<open>Rounding in the retail price preview\<close>

lemma floor_rat_numeral: "\<lfloor>(numeral a :: rat) / numeral b\<rfloor> = numeral a div numeral b"
  using floor_divide_of_int_eq [of "numeral a" "numeral b", where ?'a = rat] by simp

lemmas fl_eval = fl_def fl_pos_def binary_exponent_def round_half_even_def pow2_def
  bit_length.simps Let_def floor_rat_numeral

lemma two_places_eq:
  "two_places n =
     show_nat (n div 100) @ ''.'' @ [digit_char (n div 10 mod 10), digit_char (n mod 10)]"
proof -
  consider "n < 10" | "10 \<le> n" "n < 100" | "100 \<le> n" by linarith
  then show ?thesis
  proof cases
    case 1
    then show ?thesis
      by (simp add: two_places_def show_nat_small digit_chars numeral_3_eq_3)
  next
    case 2
    then have "n div 10 < 10" by simp
    with 2 have "show_nat n = [digit_char (n div 10), digit_char (n mod 10)]"
      by (simp add: show_nat_step show_nat_small)
    with 2 show ?thesis
      by (simp add: two_places_def show_nat_small digit_chars)
  next
    case 3
    then have a: "10 \<le> n" and b: "10 \<le> n div 10" by simp_all
    have "show_nat n = show_nat (n div 10 div 10) @ [digit_char (n div 10 mod 10)] @ [digit_char (n mod 10)]"
      by (simp add: show_nat_step [OF a] show_nat_step [OF b])
    moreover have "n div 10 div 10 = n div 100" by (simp add: div_mult2_eq)
    ultimately have s: "show_nat n = show_nat (n div 100) @ [digit_char (n div 10 mod 10), digit_char (n mod 10)]"
      by simp
    have "length (show_nat (n div 100)) \<noteq> 0" using show_nat_not_empty by simp
    then show ?thesis
      by (simp add: two_places_def s)
  qed
qed

lemma nearest_hundredth:
  fixes a :: rat
  assumes "0 \<le> a"
  shows "\<bar>of_nat (nat \<lfloor>a * 100 + 1 / 2\<rfloor>) / 100 - a\<bar> \<le> 1 / 200"
proof -
  let ?k = "\<lfloor>a * 100 + 1 / 2\<rfloor>"
  from assms have "0 \<le> ?k" by simp
  then have n: "(of_nat (nat ?k) :: rat) = of_int ?k" by simp
  have "of_int ?k \<le> a * 100 + 1 / 2" and "a * 100 + 1 / 2 < of_int ?k + 1"
    by linarith+
  then have "of_int ?k / 100 - a \<le> 1 / 200" and "a - of_int ?k / 100 \<le> 1 / 200"
    by linarith+
  then show ?thesis unfolding n by (simp only: abs_le_iff minus_diff_eq)
qed

text \<open>
  Claim C3, amended. The preview is a function of the selected price and the markup
  alone; it returns a text and writes nothing. Whenever the double value \<open>x\<close> of
  \<^verbatim>\<open>price * (1 + markup / 100)\<close> is finite and below \<open>10\<^sup>2\<^sup>1\<close> in magnitude, the text is
  the sign of \<open>x\<close>, the decimal digits of an integer part, a point and two digits,
  and the number \<open>n / 100\<close> it denotes is the hundredth nearest to \<open>|x|\<close> (the larger
  one of two): it is within \<open>1 / 200\<close> of \<open>|x|\<close>. For prices up to \<open>10\<^sup>9\<close> and markups
  up to \<open>10\<^sup>4\<close> in magnitude, \<open>x\<close> is within \<open>1 / 10000\<close> of the exact product. For
  price 100 and markup 20 the text is \<^verbatim>\<open>120.00\<close>.
\<close>

theorem retail_price_preview_rounds:
  assumes "retail_price (price p) (markup st) = Fin x" and "\<bar>x\<bar> < 10 ^ 21"
  shows "price_preview st p =
           Shown ((if x < 0 then ''-'' else []) @
                  show_nat (nat \<lfloor>\<bar>x\<bar> * 100 + 1 / 2\<rfloor> div 100) @ ''.'' @
                  [digit_char (nat \<lfloor>\<bar>x\<bar> * 100 + 1 / 2\<rfloor> div 10 mod 10),
                   digit_char (nat \<lfloor>\<bar>x\<bar> * 100 + 1 / 2\<rfloor> mod 10)])
       \<and> \<bar>of_nat (nat \<lfloor>\<bar>x\<bar> * 100 + 1 / 2\<rfloor>) / 100 - \<bar>x\<bar>\<bar> \<le> 1 / 200
       \<and> (\<forall>a b. price p = Fin a \<and> markup st = Fin b \<and> \<bar>a\<bar> \<le> 10 ^ 9 \<and> \<bar>b\<bar> \<le> 10 ^ 4 \<longrightarrow>
             \<bar>x - a * (1 + b / 100)\<bar> \<le> 1 / 10000)"
proof -
  from assms have "price_preview st p =
      Shown ((if x < 0 then ''-'' else []) @ two_places (nat \<lfloor>\<bar>x\<bar> * 100 + 1 / 2\<rfloor>))"
    by (simp add: price_preview_def toFixed2_def)
  moreover have "\<bar>of_nat (nat \<lfloor>\<bar>x\<bar> * 100 + 1 / 2\<rfloor>) / 100 - \<bar>x\<bar>\<bar> \<le> 1 / 200"
    by (rule nearest_hundredth) simp
  moreover have "\<bar>x - a * (1 + b / 100)\<bar> \<le> 1 / 10000"
    if "price p = Fin a \<and> markup st = Fin b \<and> \<bar>a\<bar> \<le> 10 ^ 9 \<and> \<bar>b\<bar> \<le> 10 ^ 4" for a b
  proof -
    from that retail_price_near_exact [of a b] obtain y
      where "retail_price (Fin a) (Fin b) = Fin y" and "\<bar>y - a * (1 + b / 100)\<bar> \<le> 1 / 10000"
      by blast
    with that assms(1) show ?thesis by simp
  qed
  ultimately show ?thesis by (simp add: two_places_eq)
qed

lemma retail_price_100_20: "retail_price (Fin 100) (Fin 20) = Fin 120"
proof -
  have d: "num_div_pos (Fin 20) 100 = Fin (3602879701896397 / 18014398509481984)"
    by (simp add: num_div_pos_def fl_eval)
  have a: "num_add (Fin 1) (Fin (3602879701896397 / 18014398509481984))
      = Fin (5404319552844595 / 4503599627370496)"
    by (simp add: num_add_def fl_eval)
  have m: "num_mul (Fin 100) (Fin (5404319552844595 / 4503599627370496)) = Fin 120"
    by (simp add: num_mul_def fl_eval)
  show ?thesis unfolding retail_price_def by (simp only: d a m)
qed

theorem retail_price_preview_rounds_witness:
  "retail_price (price widget) (markup within_stock) = Fin 120
   \<and> \<bar>120 :: rat\<bar> < 10 ^ 21
   \<and> price widget = Fin 100 \<and> markup within_stock = Fin 20
   \<and> \<bar>100 :: rat\<bar> \<le> 10 ^ 9 \<and> \<bar>20 :: rat\<bar> \<le> 10 ^ 4
   \<and> price_preview within_stock widget = Shown ''120.00''
   \<and> \<bar>(120 :: rat) - 100 * (1 + 20 / 100)\<bar> \<le> 1 / 10000"
proof -
  have pm: "price widget = Fin 100 \<and> markup within_stock = Fin 20"
    by (simp add: widget_def within_stock_def)
  then have a: "retail_price (price widget) (markup within_stock) = Fin 120"
    by (simp add: retail_price_100_20)
  have b: "\<bar>120 :: rat\<bar> < 10 ^ 21" by simp
  have r: "\<bar>100 :: rat\<bar> \<le> 10 ^ 9 \<and> \<bar>20 :: rat\<bar> \<le> 10 ^ 4" by simp
  note t = retail_price_preview_rounds [OF a b]
  from t [THEN conjunct1]
  have s: "price_preview within_stock widget = Shown ''120.00''"
    by (simp add: show_nat_120 digit_chars floor_rat_numeral)
  from t [THEN conjunct2, THEN conjunct2, THEN spec, THEN spec, THEN mp, of 100 20] pm r
  have e: "\<bar>(120 :: rat) - 100 * (1 + 20 / 100)\<bar> \<le> 1 / 10000"
    by (simp only: simp_thms)
  from a b pm r s e show ?thesis by (intro conjI) simp_all
qed

lemma retail_price_half_15:
  "retail_price (Fin (1 / 2)) (Fin 15) = Fin (2589569785738035 / 4503599627370496)"
proof -
  have d: "num_div_pos (Fin 15) 100 = Fin (5404319552844595 / 36028797018963968)"
    by (simp add: num_div_pos_def fl_eval)
  have a: "num_add (Fin 1) (Fin (5404319552844595 / 36028797018963968))
      = Fin (2589569785738035 / 2251799813685248)"
    by (simp add: num_add_def fl_eval)
  have m: "num_mul (Fin (1 / 2)) (Fin (2589569785738035 / 2251799813685248))
      = Fin (2589569785738035 / 4503599627370496)"
    by (simp add: num_mul_def fl_eval)
  show ?thesis unfolding retail_price_def by (simp only: d a m)
qed

text \<open>
  As first stated, with the product taken exactly, the claim fails. Price 0.5 and
  markup 15 are doubles, and their exact product \<open>0.5 \<times> 1.15\<close> is \<open>0.575\<close>, which rounds
  to \<^verbatim>\<open>0.58\<close>. In double arithmetic \<open>1 + 15 / 100\<close> is a little less than \<open>1.15\<close>, the
  product is a little less than \<open>0.575\<close>, and the page shows \<^verbatim>\<open>0.57\<close>.
\<close>

theorem retail_price_tie_counterexample:
  "price half_price_widget = Fin (1 / 2) \<and> markup markup_fifteen = Fin 15
   \<and> (1 / 2 :: rat) * (1 + 15 / 100) = 575 / 1000
   \<and> exact_price_text (1 / 2) 15 = ''0.58''
   \<and> retail_price (Fin (1 / 2)) (Fin 15) = Fin (2589569785738035 / 4503599627370496)
   \<and> (2589569785738035 / 4503599627370496 :: rat) < 575 / 1000
   \<and> price_preview markup_fifteen half_price_widget = Shown ''0.57''
   \<and> price_preview markup_fifteen half_price_widget \<noteq> Shown (exact_price_text (1 / 2) 15)"
proof -
  have pm: "price half_price_widget = Fin (1 / 2) \<and> markup markup_fifteen = Fin 15"
    by (simp add: half_price_widget_def markup_fifteen_def widget_def)
  have e: "exact_price_text (1 / 2) 15 = ''0.58''"
    by (simp add: exact_price_text_def two_places_eq show_nat_0 digit_chars floor_rat_numeral)
  have "price_preview markup_fifteen half_price_widget
      = toFixed2 (Fin (2589569785738035 / 4503599627370496))"
    using pm by (simp add: price_preview_def retail_price_half_15)
  also have "\<dots> = Shown ''0.57''"
    by (simp add: toFixed2_def two_places_eq show_nat_0 digit_chars floor_rat_numeral)
  finally have s: "price_preview markup_fifteen half_price_widget = Shown ''0.57''" .
  from pm e s retail_price_half_15 show ?thesis by simp
qed

subsection \<open>The range of quantity and markup\<close>

text \<open>
  Claim C4, evaluated. The quantity input declares \<^verbatim>\<open>min={1}\<close> and the markup input
  \<^verbatim>\<open>min={0} max={100}\<close>, but the button tests \<^verbatim>\<open>qty > selected.stock\<close> alone. After
  the user clears the quantity field (\<^verbatim>\<open>Number("")\<close> is 0) and types 250 as markup, a
  click on Confirm Purchase sends a request with quantity 0 and markup 250.
\<close>

theorem zero_quantity_is_submitted:
  "run null_read_text retailer initial_state zero_quantity_order
     = (\<lparr>whProducts = [widget, gadget], loading = False, selected = Some widget,
         qty = Fin 0, markup = Fin 250\<rparr>,
        [GetProducts,
         PostPurchase \<lparr>wholesaler_id = IdNum 3, product_id = IdNum 101, retailer_id = IdNum 7,
           quantity = Fin 0, markup_percent = Fin 250\<rparr>])"
  by code_simp

subsection \<open>A successful purchase\<close>

lemma success_message_defined: "v \<noteq> JNull \<Longrightarrow> success_message v \<noteq> None"
  by (cases v) (simp_all add: success_message_def split: option.splits)

text \<open>
  Claim C5, amended. For every response with a 2xx status whose body parses as JSON
  to a value other than \<^verbatim>\<open>null\<close>, the continuation of \<open>confirmPurchase\<close> shows a
  success toast (the \<^verbatim>\<open>message\<close> member when it is truthy, \<^verbatim>\<open>Purchase successful!\<close>
  otherwise), resets the selection to none, the quantity to 1 and the markup to 20,
  starts a reload of the product list, and arms the timer that navigates to the
  dashboard after 1000 ms.
\<close>

theorem purchase_success_resets:
  assumes "ok r" and "parsed r = Parsed v" and "v \<noteq> JNull"
  shows "success_message v \<noteq> None
       \<and> confirmPurchase_settle nr st (FetchResponded r) =
           (st\<lparr>selected := None, qty := Fin 1, markup := Fin 20, loading := True\<rparr>,
            [ToastSuccess (the (success_message v)), GetProducts,
             NavigateAfter 1000 ''/retailer/dashboard''])"
proof -
  from assms(3) obtain m where m: "success_message v = Some m"
    using success_message_defined by blast
  with assms(1,2) show ?thesis
    by (simp add: confirmPurchase_settle_def purchase_succeeded_def load_begin_def)
qed

theorem purchase_success_resets_witness:
  "ok purchase_recorded
   \<and> parsed purchase_recorded = Parsed (JObj [(''message'', JStr ''Purchase recorded'')])
   \<and> JObj [(''message'', JStr ''Purchase recorded'')] \<noteq> JNull
   \<and> confirmPurchase_settle null_read_text buying_widget (FetchResponded purchase_recorded) =
       (\<lparr>whProducts = [widget, gadget], loading = True, selected = None,
         qty = Fin 1, markup = Fin 20\<rparr>,
        [ToastSuccess (JStr ''Purchase recorded''), GetProducts,
         NavigateAfter 1000 ''/retailer/dashboard''])"
proof -
  have a: "ok purchase_recorded" by (simp add: ok_def purchase_recorded_def)
  have b: "parsed purchase_recorded = Parsed (JObj [(''message'', JStr ''Purchase recorded'')])"
    by (simp add: purchase_recorded_def)
  have c: "JObj [(''message'', JStr ''Purchase recorded'')] \<noteq> JNull" by simp
  have d: "the (success_message (JObj [(''message'', JStr ''Purchase recorded'')]))
      = JStr ''Purchase recorded''"
    by (simp add: success_message_def)
  from purchase_success_resets [OF a b c, of null_read_text buying_widget] d
  have "confirmPurchase_settle null_read_text buying_widget (FetchResponded purchase_recorded) =
       (buying_widget\<lparr>selected := None, qty := Fin 1, markup := Fin 20, loading := True\<rparr>,
        [ToastSuccess (JStr ''Purchase recorded''), GetProducts,
         NavigateAfter 1000 ''/retailer/dashboard''])"
    by simp
  with a b c show ?thesis by (simp add: buying_widget_def)
qed

text \<open>
  As first stated, for every 2xx response, the claim fails: a 204 response has an empty
  body, \<^verbatim>\<open>JSON.parse\<close> throws, the outer \<^verbatim>\<open>catch\<close> shows the parser's message as an
  error, and selection, quantity and markup stay as they were.
\<close>

theorem purchase_success_unparsed_counterexample:
  "ok no_content
   \<and> confirmPurchase_settle null_read_text buying_widget (FetchResponded no_content)
       = (buying_widget, [ToastError ''Unexpected end of JSON input''])
   \<and> selected buying_widget = Some widget
   \<and> qty buying_widget = Fin 7
   \<and> markup buying_widget = Fin 35"
  by code_simp

subsection \<open>A failed purchase\<close>





subsection \<open>A failed load\<close>

lemma load_settle_fails:
  "(case out of GetRejected \<Rightarrow> None | GetResolved res \<Rightarrow> all_of res) = None \<Longrightarrow>
     load_settle u st out =
       (st\<lparr>loading := False\<rparr>, [ToastError ''Failed to load wholesaler products''])"
  by (simp add: load_settle_def)

lemma confirmPurchase_settle_loading:
  "loading st \<Longrightarrow> loading (fst (confirmPurchase_settle nr st out))"
  by (simp add: confirmPurchase_settle_def purchase_succeeded_def load_begin_def
      split: fetch_outcome.splits parse_result.splits option.splits)

lemma error_toast_not_load: "error_toast m \<noteq> GetProducts"
  by (simp add: error_toast_def)

lemma loads_in_flight_over: "1 < n \<Longrightarrow> loads_in_flight nr u st n evs = None"
  by (cases evs) simp_all

text \<open>
  One event keeps the indicator in step with the requests in flight, as long as no
  second request is started.
\<close>

lemma step_loads:
  assumes "loading st = (n = 1)" and "n \<le> 1" and "\<not> (is_ProductsSettled ev \<and> n = 0)"
    and "n - (if is_ProductsSettled ev then 1 else 0)
           + count_list (snd (step nr u st ev)) GetProducts \<le> 1"
  shows "loading (fst (step nr u st ev))
       = (n - (if is_ProductsSettled ev then 1 else 0)
            + count_list (snd (step nr u st ev)) GetProducts = 1)"
proof (cases ev)
  case Mount
  with assms show ?thesis by (auto simp: step_def load_begin_def)
next
  case (ProductsSettled out)
  with assms show ?thesis
    by (auto simp: step_def load_settle_def split: option.splits)
next
  case ClickConfirm
  with assms show ?thesis
    by (auto simp: step_def click_confirm_cases split: option.splits)
next
  case (PurchaseSettled out)
  with assms show ?thesis
    by (auto simp: step_def confirmPurchase_settle_def purchase_succeeded_def load_begin_def
        error_toast_not_load
        split: fetch_outcome.splits parse_result.splits option.splits if_splits)
qed (use assms in \<open>auto simp: step_def\<close>)

lemma loads_in_flight_loading:
  "loading st = (n = 1) \<Longrightarrow> loads_in_flight nr u st n evs = Some k \<Longrightarrow>
     loading (fst (run nr u st evs)) = (k = 1)"
proof (induction evs arbitrary: st n)
  case Nil
  then show ?case by (auto split: if_splits)
next
  case (Cons ev evs)
  let ?st = "fst (step nr u st ev)"
  let ?n = "n - (if is_ProductsSettled ev then 1 else 0)
              + count_list (snd (step nr u st ev)) GetProducts"
  from Cons.prems(2) have n: "n \<le> 1" and s: "\<not> (is_ProductsSettled ev \<and> n = 0)"
    and rest: "loads_in_flight nr u ?st ?n evs = Some k"
    by (auto split: if_splits)
  have le: "?n \<le> 1"
  proof (rule ccontr)
    assume "\<not> ?n \<le> 1"
    then have "1 < ?n" by simp
    then have "loads_in_flight nr u ?st ?n evs = None" by (rule loads_in_flight_over)
    with rest show False by simp
  qed
  from step_loads [OF Cons.prems(1) n s le] have "loading ?st = (?n = 1)" .
  from Cons.IH [OF this rest] show ?case by (simp add: split_beta Let_def)
qed

lemma mounted_loads_in_flight:
  "loads_in_flight nr u initial_state 0 (Mount # evs) = Some k \<Longrightarrow>
     (render (fst (run nr u initial_state (Mount # evs))) = LoadingView) = (k = 1)"
proof -
  assume a: "loads_in_flight nr u initial_state 0 (Mount # evs) = Some k"
  have m: "step nr u initial_state Mount = (initial_state, [GetProducts])"
    by (simp add: step_def load_begin_def initial_state_def)
  from a have "loads_in_flight nr u initial_state 1 evs = Some k" by (simp add: m)
  moreover have "loading initial_state = ((1 :: nat) = 1)" by (simp add: initial_state_def)
  ultimately have "loading (fst (run nr u initial_state evs)) = (k = 1)"
    by (rule loads_in_flight_loading [rotated])
  moreover have "fst (run nr u initial_state (Mount # evs)) = fst (run nr u initial_state evs)"
    by (simp add: m split_beta)
  ultimately show ?thesis by (simp add: render_def)
qed

text \<open>
  Claim C7, amended. For every run of \<open>load\<close> in which the request fails, an error
  toast is shown and the product list is left as it was; on the load that the mount
  starts it was empty and stays empty. The page renders the loading indicator once
  \<open>load\<close> has begun, keeps rendering it whatever else happens before a products
  request settles, and renders the page again once any products request has settled,
  successfully or not. Hence in every run from the mount in which at most one products
  request is in flight at a time, the indicator is rendered exactly while a request is
  in flight: until the fetch settles, and not after.
\<close>

theorem load_failure_handling:
  "(load_failed out \<longrightarrow>
      load_settle u st out
        = (st\<lparr>loading := False\<rparr>, [ToastError ''Failed to load wholesaler products''])
      \<and> whProducts (fst (load_settle u st out)) = whProducts st
      \<and> whProducts (fst (run nr u initial_state [Mount, ProductsSettled out])) = [])
   \<and> render (fst (load_begin st)) = LoadingView
   \<and> (loading st \<and> \<not> is_ProductsSettled ev \<longrightarrow> render (fst (step nr u st ev)) = LoadingView)
   \<and> loading (fst (load_settle u st out)) = False
   \<and> render (fst (load_settle u st out)) \<noteq> LoadingView
   \<and> (loads_in_flight nr u initial_state 0 (Mount # evs) = Some k \<longrightarrow>
        (render (fst (run nr u initial_state (Mount # evs))) = LoadingView) = (k = 1))"
proof -
  have f: "load_failed out \<Longrightarrow>
      load_settle u st out
        = (st\<lparr>loading := False\<rparr>, [ToastError ''Failed to load wholesaler products''])" for st
    by (rule load_settle_fails) (simp add: load_failed_def split: get_outcome.splits)
  have a: "load_failed out \<longrightarrow>
      load_settle u st out
        = (st\<lparr>loading := False\<rparr>, [ToastError ''Failed to load wholesaler products''])
      \<and> whProducts (fst (load_settle u st out)) = whProducts st
      \<and> whProducts (fst (run nr u initial_state [Mount, ProductsSettled out])) = []"
    by (simp add: f step_def load_begin_def initial_state_def)
  have b: "render (fst (load_begin st)) = LoadingView"
    by (simp add: load_begin_def render_def)
  have k: "loading st \<and> \<not> is_ProductsSettled ev \<longrightarrow> render (fst (step nr u st ev)) = LoadingView"
    by (cases ev) (simp_all add: step_def render_def load_begin_def confirmPurchase_settle_loading)
  have c: "loading (fst (load_settle u st out)) = False"
    by (simp add: load_settle_def split: option.splits)
  then have d: "render (fst (load_settle u st out)) \<noteq> LoadingView"
    by (simp add: render_def)
  have e: "loads_in_flight nr u initial_state 0 (Mount # evs) = Some k \<longrightarrow>
        (render (fst (run nr u initial_state (Mount # evs))) = LoadingView) = (k = 1)"
    by (rule impI) (rule mounted_loads_in_flight)
  from a b k c d e show ?thesis by (intro conjI)
qed

theorem load_failure_handling_witness:
  "load_failed GetRejected
   \<and> load_settle retailer initial_state GetRejected
       = (\<lparr>whProducts = [], loading = False, selected = None, qty = Fin 1, markup = Fin 20\<rparr>,
          [ToastError ''Failed to load wholesaler products''])
   \<and> whProducts (fst (run null_read_text retailer initial_state [Mount, ProductsSettled GetRejected])) = []
   \<and> render (fst (load_begin browsing)) = LoadingView
   \<and> render (fst (step null_read_text retailer (fst (load_begin browsing)) (ChangeQty (Fin 3))))
       = LoadingView
   \<and> render (fst (load_settle retailer initial_state GetRejected))
       = PageView \<lparr>grid = [], empty_notice = True, modal = None\<rparr>
   \<and> loads_in_flight null_read_text retailer initial_state 0 (Mount # purchase_steps) = Some 1
   \<and> render (fst (run null_read_text retailer initial_state (Mount # purchase_steps))) = LoadingView
   \<and> loads_in_flight null_read_text retailer initial_state 0
        (Mount # purchase_steps @ [ProductsSettled GetRejected]) = Some 0
   \<and> render (fst (run null_read_text retailer initial_state
        (Mount # purchase_steps @ [ProductsSettled GetRejected]))) \<noteq> LoadingView"
proof -
  note t = load_failure_handling [of GetRejected retailer initial_state null_read_text Mount]
  note in_flight = conjunct2 [THEN conjunct2, THEN conjunct2, THEN conjunct2, THEN conjunct2]
  have a: "load_failed GetRejected" by (simp add: load_failed_def)
  have l: "loading (fst (load_begin browsing)) \<and> \<not> is_ProductsSettled (ChangeQty (Fin 3))"
    by (simp add: load_begin_def)
  from load_failure_handling [of GetRejected retailer "fst (load_begin browsing)" null_read_text
      "ChangeQty (Fin 3)", THEN conjunct2, THEN conjunct2, THEN conjunct1, THEN mp, OF l]
  have k: "render (fst (step null_read_text retailer (fst (load_begin browsing)) (ChangeQty (Fin 3))))
      = LoadingView" .
  from t [THEN conjunct1, THEN mp, OF a]
  have b: "load_settle retailer initial_state GetRejected
        = (initial_state\<lparr>loading := False\<rparr>, [ToastError ''Failed to load wholesaler products''])"
    and c: "whProducts (fst (run null_read_text retailer initial_state [Mount, ProductsSettled GetRejected])) = []"
    by simp_all
  have d: "render (fst (load_begin browsing)) = LoadingView"
    by (simp add: load_begin_def render_def)
  from b have e: "render (fst (load_settle retailer initial_state GetRejected))
       = PageView \<lparr>grid = [], empty_notice = True, modal = None\<rparr>"
    by (simp add: render_def initial_state_def)
  from b have b': "load_settle retailer initial_state GetRejected
       = (\<lparr>whProducts = [], loading = False, selected = None, qty = Fin 1, markup = Fin 20\<rparr>,
          [ToastError ''Failed to load wholesaler products''])"
    by (simp add: initial_state_def)
  have p1: "loads_in_flight null_read_text retailer initial_state 0 (Mount # purchase_steps) = Some 1"
    by code_simp
  from load_failure_handling [of GetRejected retailer initial_state null_read_text Mount
      purchase_steps 1, THEN in_flight, THEN mp, OF p1]
  have r1: "render (fst (run null_read_text retailer initial_state (Mount # purchase_steps))) = LoadingView"
    by simp
  have p0: "loads_in_flight null_read_text retailer initial_state 0
        (Mount # purchase_steps @ [ProductsSettled GetRejected]) = Some 0"
    by code_simp
  from load_failure_handling [of GetRejected retailer initial_state null_read_text Mount
      "purchase_steps @ [ProductsSettled GetRejected]" 0, THEN in_flight, THEN mp, OF p0]
  have r0: "render (fst (run null_read_text retailer initial_state
        (Mount # purchase_steps @ [ProductsSettled GetRejected]))) \<noteq> LoadingView"
    by simp
  from a b' c d k e p1 r1 p0 r0 show ?thesis by (intro conjI)
qed

text \<open>
  As first stated the claim fails twice. With the list left empty in every failing
  run, it fails for the reload that follows a purchase: the first load stored two
  products, the reload is rejected, and the two products are still there. With the
  indicator shown until the fetch settles in every run, it fails when two loads
  overlap: the Confirm Purchase button stays enabled while a purchase is pending, two
  clicks send two purchases, each success starts a reload, and the first reload to
  settle clears the indicator. Three loads were started, two have settled, and the
  page is rendered without the indicator.
\<close>

theorem failed_reload_and_overlapping_loads_counterexample:
  "load_failed GetRejected
   \<and> fst (run null_read_text retailer initial_state purchase_then_failed_reload)
       = \<lparr>whProducts = [widget, gadget], loading = False, selected = None,
          qty = Fin 1, markup = Fin 20\<rparr>
   \<and> snd (run null_read_text retailer initial_state purchase_then_failed_reload)
       = [GetProducts,
          PostPurchase \<lparr>wholesaler_id = IdNum 3, product_id = IdNum 101, retailer_id = IdNum 7,
            quantity = Fin 1, markup_percent = Fin 20\<rparr>,
          ToastSuccess (JStr ''Purchase recorded''), GetProducts,
          NavigateAfter 1000 ''/retailer/dashboard'',
          ToastError ''Failed to load wholesaler products'']
   \<and> whProducts (fst (run null_read_text retailer initial_state purchase_then_failed_reload)) \<noteq> []
   \<and> count_list (snd (run null_read_text retailer initial_state double_purchase)) GetProducts = 3
   \<and> length (filter is_ProductsSettled double_purchase) = 2
   \<and> render (fst (run null_read_text retailer initial_state double_purchase))
       = PageView \<lparr>grid = [widget, gadget], empty_notice = False, modal = None\<rparr>"
  by code_simp

subsection \<open>The guard of \<open>confirmPurchase\<close>\<close>

text \<open>
  Claim C8. When no product is selected, \<open>confirmPurchase\<close> shows the error
  \<^verbatim>\<open>Select a product\<close> and does nothing else: no request is among its effects,
  whatever the network would have answered, and the state is returned as it was.
\<close>

theorem confirm_without_selection:
  assumes "selected st = None"
  shows "confirmPurchase nr u st out = (st, [ToastError ''Select a product''])"
  using assms by (simp add: confirmPurchase_def confirmPurchase_begin_def)

theorem confirm_without_selection_witness:
  "selected browsing = None
   \<and> confirmPurchase null_read_text retailer browsing (FetchRejected ''Failed to fetch'')
       = (browsing, [ToastError ''Select a product''])"
  using confirm_without_selection [of browsing null_read_text retailer "FetchRejected ''Failed to fetch''"]
  by (simp add: browsing_def)

subsection \<open>The identifiers of the payload\<close>

text \<open>
  Claim C9. Every purchase request that \<open>confirmPurchase\<close> sends takes its
  identifiers from the current state: a product is selected, the wholesaler is that
  product's seller, the product id is that product's id, and the retailer is the
  session user.
\<close>

theorem payload_identifiers:
  assumes "PostPurchase pl \<in> set (snd (confirmPurchase nr u st out))"
  shows "selected st \<noteq> None
       \<and> wholesaler_id pl = seller_id (the (selected st))
       \<and> product_id pl = id_product (the (selected st))
       \<and> retailer_id pl = id_user u"
  using assms
  by (auto simp: confirmPurchase_def confirmPurchase_begin_def payload_def
      confirmPurchase_settle_def error_toast_def purchase_succeeded_def load_begin_def
      split: option.splits fetch_outcome.splits parse_result.splits if_splits prod.splits)

theorem payload_identifiers_witness:
  "PostPurchase (payload retailer buying_widget widget)
     \<in> set (snd (confirmPurchase null_read_text retailer buying_widget (FetchRejected ''Failed to fetch'')))
   \<and> selected buying_widget \<noteq> None
   \<and> wholesaler_id (payload retailer buying_widget widget) = IdNum 3
   \<and> product_id (payload retailer buying_widget widget) = IdNum 101
   \<and> retailer_id (payload retailer buying_widget widget) = IdNum 7"
proof -
  have h: "PostPurchase (payload retailer buying_widget widget)
     \<in> set (snd (confirmPurchase null_read_text retailer buying_widget (FetchRejected ''Failed to fetch'')))"
    by (simp add: confirmPurchase_def confirmPurchase_begin_def confirmPurchase_settle_def
        buying_widget_def)
  show ?thesis
    using h payload_identifiers [OF h]
    by (simp add: buying_widget_def widget_def retailer_def)
qed

subsection \<open>Selecting a product\<close>

text \<open>
  Claim C10. A click on the Select button of a rendered card writes the selection and
  nothing else: the quantity, the markup, the product list and the loading flag are
  what they were, and nothing is shown or sent. This holds in every state, so also
  when another product was selected before and the inputs had been edited for it.
\<close>

theorem select_changes_only_selection:
  assumes "\<not> loading st" and "i < length (whProducts st)"
  shows "step nr u st (ClickSelect i) = (st\<lparr>selected := Some (whProducts st ! i)\<rparr>, [])
       \<and> qty (fst (step nr u st (ClickSelect i))) = qty st
       \<and> markup (fst (step nr u st (ClickSelect i))) = markup st
       \<and> whProducts (fst (step nr u st (ClickSelect i))) = whProducts st
       \<and> loading (fst (step nr u st (ClickSelect i))) = loading st"
  using assms by (simp add: step_def)

theorem select_changes_only_selection_witness:
  "\<not> loading buying_widget \<and> 1 < length (whProducts buying_widget)
   \<and> selected buying_widget = Some widget
   \<and> step null_read_text retailer buying_widget (ClickSelect 1)
       = (buying_widget\<lparr>selected := Some gadget\<rparr>, [])
   \<and> qty (fst (step null_read_text retailer buying_widget (ClickSelect 1))) = Fin 7
   \<and> markup (fst (step null_read_text retailer buying_widget (ClickSelect 1))) = Fin 35"
  using select_changes_only_selection [of buying_widget 1 null_read_text retailer]
  by (simp add: buying_widget_def)

end
